theory Spec2Isabelle
  imports Main "HOL-Library.Char_ord" "HOL-Library.List_Lexorder" "HOL-Library.Option_ord"
begin

section \<open>The lock table\<close>

text \<open>
  \<^verbatim>\<open>s3index.py\<close> keeps one item per coordination key in a DynamoDB table. The table
  is reached through three calls of the boto3 \<^verbatim>\<open>Table\<close> resource: \<^verbatim>\<open>get_item\<close> (a
  consistent read), \<^verbatim>\<open>put_item\<close> with a \<^verbatim>\<open>ConditionExpression\<close>, and \<^verbatim>\<open>update_item\<close>
  with a \<^verbatim>\<open>SET\<close> expression. An attribute value is a string (DynamoDB type \<^verbatim>\<open>S\<close>) or
  the null value (type \<^verbatim>\<open>NULL\<close>), which is what boto3 writes for Python's \<^verbatim>\<open>None\<close>. An
  item always has its key attribute \<^verbatim>\<open>s3key\<close>; each other attribute may be absent.
  Python strings are byte lists in UTF-8, whose lexicographic order is the order of
  Python's \<^verbatim>\<open><\<close> on \<^verbatim>\<open>str\<close>.
\<close>

datatype attr_value = NULL | S string

record item =
  s3key :: string
  sequencer :: "attr_value option"
  lock_status :: "attr_value option"
  updated_by :: "attr_value option"

type_synonym locktable = "string \<rightharpoonup> item"

definition LOCK_VALUE_LOCKED :: string where
  "LOCK_VALUE_LOCKED = ''locked''"

definition LOCK_VALUE_UNLOCKED :: string where
  "LOCK_VALUE_UNLOCKED = ''''"

definition OUTCOME_OUT_OF_DATE :: nat where
  "OUTCOME_OUT_OF_DATE = 1"

definition OUTCOME_PROCESSED :: nat where
  "OUTCOME_PROCESSED = 2"

text \<open>The exceptions of the module: its own \<^verbatim>\<open>ItemLockedException\<close>, the \<^verbatim>\<open>KeyError\<close> of a
  subscript on a missing attribute, and any other \<^verbatim>\<open>Exception\<close> a callback raises, kept
  by its message. Failures of the store other than the failed condition (network,
  throttling) and exceptions outside Python's \<^verbatim>\<open>Exception\<close> class are not modelled.\<close>

datatype exc = ItemLockedException | KeyError string | OtherException string

text \<open>boto3 turns \<^verbatim>\<open>None\<close> into \<^verbatim>\<open>NULL\<close> and back.\<close>

fun serialize :: "string option \<Rightarrow> attr_value" where
  "serialize None = NULL"
| "serialize (Some s) = S s"

fun deserialize :: "attr_value \<Rightarrow> string option" where
  "deserialize NULL = None"
| "deserialize (S s) = Some s"

text \<open>Python's truth value of an attribute read back: \<^verbatim>\<open>None\<close> and \<^verbatim>\<open>''\<close> are false.\<close>

fun truthy :: "attr_value \<Rightarrow> bool" where
  "truthy NULL = False"
| "truthy (S s) = (s \<noteq> [])"

subsection \<open>The three table calls\<close>

definition get_item :: "locktable \<Rightarrow> string \<Rightarrow> item option" where
  "get_item t k = t k"

text \<open>The two forms a condition of this module is made of. A comparison with an attribute
  the item lacks, or with no item at all, is false; two \<^verbatim>\<open>NULL\<close>s are equal.\<close>

definition attribute_not_exists_key :: "item option \<Rightarrow> bool" where
  "attribute_not_exists_key cur = (cur = None)"

definition attr_equals :: "(item \<Rightarrow> attr_value option) \<Rightarrow> attr_value \<Rightarrow> item option \<Rightarrow> bool" where
  "attr_equals field v cur = (case cur of None \<Rightarrow> False | Some it \<Rightarrow> field it = Some v)"

text \<open>\<^verbatim>\<open>put_item\<close> replaces the whole item when the condition holds of the current one, and
  fails with \<^verbatim>\<open>ConditionalCheckFailedException\<close> (here \<open>None\<close>) otherwise.\<close>

definition put_item :: "locktable \<Rightarrow> item \<Rightarrow> (item option \<Rightarrow> bool) \<Rightarrow> locktable option" where
  "put_item t new cond = (if cond (t (s3key new)) then Some (t(s3key new \<mapsto> new)) else None)"

text \<open>\<^verbatim>\<open>update_item\<close> with a \<^verbatim>\<open>SET\<close> expression and no condition: it changes the named
  attributes of the item, and creates the item (with its key alone) when there is none.\<close>

definition update_item :: "locktable \<Rightarrow> string \<Rightarrow> (item \<Rightarrow> item) \<Rightarrow> locktable" where
  "update_item t k upd =
     t(k \<mapsto> upd (case t k of
                   None \<Rightarrow> \<lparr>s3key = k, sequencer = None, lock_status = None, updated_by = None\<rparr>
                 | Some it \<Rightarrow> it))"

section \<open>S3Lock\<close>

text \<open>The object holds the key, the table and the execution id. The table is the shared
  state, passed in and returned by each method.\<close>

record S3Lock =
  lock_key :: string
  execution_id :: string

definition getCurrentSequencer :: "S3Lock \<Rightarrow> locktable \<Rightarrow> exc + string option" where
  "getCurrentSequencer lock t =
     (case get_item t (lock_key lock) of
        Some it \<Rightarrow>
          (case lock_status it of
             None \<Rightarrow> Inl (KeyError ''lock_status'')
           | Some locked \<Rightarrow>
               (case sequencer it of
                  None \<Rightarrow> Inl (KeyError ''sequencer'')
                | Some sq \<Rightarrow>
                    if truthy locked then Inl ItemLockedException
                    else Inr (deserialize sq)))
      | None \<Rightarrow> Inr None)"

definition lockForSequencer ::
  "S3Lock \<Rightarrow> string option \<Rightarrow> string \<Rightarrow> locktable \<Rightarrow> bool \<times> locktable" where
  "lockForSequencer lock oldSequencer newSequencer t =
     (case put_item t
             \<lparr>s3key = lock_key lock,
              sequencer = Some (S newSequencer),
              lock_status = Some (S LOCK_VALUE_LOCKED),
              updated_by = Some (S (execution_id lock))\<rparr>
             (\<lambda>cur. attribute_not_exists_key cur \<or>
                    (attr_equals sequencer (serialize oldSequencer) cur \<and>
                     attr_equals lock_status (S LOCK_VALUE_UNLOCKED) cur))
      of None \<Rightarrow> (False, t)
       | Some t' \<Rightarrow> (True, t'))"

definition unlockAndRollBack :: "S3Lock \<Rightarrow> string option \<Rightarrow> locktable \<Rightarrow> locktable" where
  "unlockAndRollBack lock to_sequencer t =
     update_item t (lock_key lock)
       (\<lambda>it. it\<lparr>lock_status := Some (S LOCK_VALUE_UNLOCKED),
                updated_by := Some (S (execution_id lock)),
                sequencer := Some (serialize to_sequencer)\<rparr>)"

definition unlock :: "S3Lock \<Rightarrow> locktable \<Rightarrow> locktable" where
  "unlock lock t =
     update_item t (lock_key lock)
       (\<lambda>it. it\<lparr>lock_status := Some (S LOCK_VALUE_UNLOCKED),
                updated_by := Some (S (execution_id lock))\<rparr>)"

section \<open>The coordinator\<close>

text \<open>The notification is the event of the source, with the three fields the function
  reads. The two callbacks act on the world outside the lock table (\<open>'p\<close>: the output
  bucket, the clock) and either return or raise; neither is given the table.\<close>

record event =
  bucket_name :: string
  object_key :: string
  object_sequencer :: string

record 'p world =
  table :: locktable
  outside :: 'p

type_synonym ('c, 'p, 'r) processing = "event \<Rightarrow> 'c \<Rightarrow> 'p \<Rightarrow> (exc + 'r) \<times> 'p"
type_synonym 'p backoff = "'p \<Rightarrow> (exc + unit) \<times> 'p"

text \<open>The default \<^verbatim>\<open>_backoff\<close> sleeps for a random time below one second and returns.\<close>

definition default_backoff :: "'p backoff" where
  "default_backoff p = (Inr (), p)"

text \<open>\<^verbatim>\<open>handle_notification_if_up_to_date\<close>: the \<^verbatim>\<open>while True\<close> loop is the recursion. The
  loop has no bound, so the function is partial: \<open>None\<close> is a run that never returns.
  A returned tuple is \<open>Inr (outcome, value)\<close>, a raised exception \<open>Inl e\<close>. The calls of
  the logger are left out; \<^verbatim>\<open>input_full_key\<close> is used by them alone.\<close>

partial_function (option) handle_notification_if_up_to_date ::
  "event \<Rightarrow> 'c \<Rightarrow> S3Lock \<Rightarrow> ('c, 'p, 'r) processing \<Rightarrow> 'p backoff \<Rightarrow> 'p world
     \<Rightarrow> ((exc + nat \<times> 'r option) \<times> 'p world) option" where
  "handle_notification_if_up_to_date ev ctx lock processing_fn backoff_fn w =
     (case getCurrentSequencer lock (table w) of
        Inl e \<Rightarrow>
          (if e = ItemLockedException then
             (case backoff_fn (outside w) of
                (Inl e', p') \<Rightarrow> Some (Inl e', w\<lparr>outside := p'\<rparr>)
              | (Inr u, p') \<Rightarrow>
                  handle_notification_if_up_to_date ev ctx lock processing_fn backoff_fn
                    (w\<lparr>outside := p'\<rparr>))
           else Some (Inl e, w))
      | Inr oldsequencer \<Rightarrow>
          (if (case oldsequencer of None \<Rightarrow> True | Some old \<Rightarrow> old < object_sequencer ev) then
             (case lockForSequencer lock oldsequencer (object_sequencer ev) (table w) of
                (acquired, t') \<Rightarrow>
                  if \<not> acquired then
                    (case backoff_fn (outside w) of
                       (Inl e', p') \<Rightarrow> Some (Inl e', \<lparr>table = t', outside = p'\<rparr>)
                     | (Inr u, p') \<Rightarrow>
                         handle_notification_if_up_to_date ev ctx lock processing_fn backoff_fn
                           \<lparr>table = t', outside = p'\<rparr>)
                  else
                    (case processing_fn ev ctx (outside w) of
                       (Inl e, p') \<Rightarrow>
                         Some (Inl e,
                               \<lparr>table = unlockAndRollBack lock oldsequencer t', outside = p'\<rparr>)
                     | (Inr v, p') \<Rightarrow>
                         Some (Inr (OUTCOME_PROCESSED, Some v),
                               \<lparr>table = unlock lock t', outside = p'\<rparr>)))
           else Some (Inr (OUTCOME_OUT_OF_DATE, None), w)))"

section \<open>Concurrent workers\<close>

text \<open>Several invocations run at once against one table, and each call of the table is
  atomic. A worker is one invocation of \<^verbatim>\<open>handle_notification_if_up_to_date\<close>: its
  arguments, and the place it has reached together with the local variables alive
  there (\<^verbatim>\<open>oldsequencer\<close>, the caught exception, the callback's value). One step of a worker
  runs it up to and including its next call of the table or of a callback.\<close>

datatype 'r pc =
    AtRead
  | AtBackoff
  | AtLock "string option"
  | AtProcess "string option"
  | AtRollback "string option" exc
  | AtUnlock "string option" 'r
  | Returned "nat \<times> 'r option"
  | Raised exc

record ('c, 'p, 'r) worker =
  w_event :: event
  w_ctx :: 'c
  w_lock :: S3Lock
  w_processing_fn :: "('c, 'p, 'r) processing"
  w_backoff_fn :: "'p backoff"
  w_pc :: "'r pc"

definition worker_step ::
  "('c, 'p, 'r) worker \<Rightarrow> 'p world \<Rightarrow> ('c, 'p, 'r) worker \<times> 'p world" where
  "worker_step wk w =
     (case w_pc wk of
        AtRead \<Rightarrow>
          (case getCurrentSequencer (w_lock wk) (table w) of
             Inl e \<Rightarrow>
               if e = ItemLockedException then (wk\<lparr>w_pc := AtBackoff\<rparr>, w)
               else (wk\<lparr>w_pc := Raised e\<rparr>, w)
           | Inr oldsequencer \<Rightarrow>
               if (case oldsequencer of None \<Rightarrow> True
                   | Some old \<Rightarrow> old < object_sequencer (w_event wk))
               then (wk\<lparr>w_pc := AtLock oldsequencer\<rparr>, w)
               else (wk\<lparr>w_pc := Returned (OUTCOME_OUT_OF_DATE, None)\<rparr>, w))
      | AtBackoff \<Rightarrow>
          (case w_backoff_fn wk (outside w) of
             (Inl e, p') \<Rightarrow> (wk\<lparr>w_pc := Raised e\<rparr>, w\<lparr>outside := p'\<rparr>)
           | (Inr u, p') \<Rightarrow> (wk\<lparr>w_pc := AtRead\<rparr>, w\<lparr>outside := p'\<rparr>))
      | AtLock oldsequencer \<Rightarrow>
          (case lockForSequencer (w_lock wk) oldsequencer (object_sequencer (w_event wk)) (table w) of
             (acquired, t') \<Rightarrow>
               if \<not> acquired then (wk\<lparr>w_pc := AtBackoff\<rparr>, w\<lparr>table := t'\<rparr>)
               else (wk\<lparr>w_pc := AtProcess oldsequencer\<rparr>, w\<lparr>table := t'\<rparr>))
      | AtProcess oldsequencer \<Rightarrow>
          (case w_processing_fn wk (w_event wk) (w_ctx wk) (outside w) of
             (Inl e, p') \<Rightarrow> (wk\<lparr>w_pc := AtRollback oldsequencer e\<rparr>, w\<lparr>outside := p'\<rparr>)
           | (Inr v, p') \<Rightarrow> (wk\<lparr>w_pc := AtUnlock oldsequencer v\<rparr>, w\<lparr>outside := p'\<rparr>))
      | AtRollback oldsequencer e \<Rightarrow>
          (wk\<lparr>w_pc := Raised e\<rparr>,
           w\<lparr>table := unlockAndRollBack (w_lock wk) oldsequencer (table w)\<rparr>)
      | AtUnlock oldsequencer v \<Rightarrow>
          (wk\<lparr>w_pc := Returned (OUTCOME_PROCESSED, Some v)\<rparr>,
           w\<lparr>table := unlock (w_lock wk) (table w)\<rparr>)
      | Returned rv \<Rightarrow> (wk, w)
      | Raised e \<Rightarrow> (wk, w))"

text \<open>The system: the shared world and the workers started so far. A schedule is a list of
  events: a notification arrives and starts a worker, or the worker at an index takes
  its next step. Every interleaving of the workers' table calls is a schedule.\<close>

record ('c, 'p, 'r) system =
  shared :: "'p world"
  workers :: "('c, 'p, 'r) worker list"

datatype ('c, 'p, 'r) sched = Arrive "('c, 'p, 'r) worker" | Step nat

definition sys_step ::
  "('c, 'p, 'r) system \<Rightarrow> ('c, 'p, 'r) sched \<Rightarrow> ('c, 'p, 'r) system" where
  "sys_step s a =
     (case a of
        Arrive wk \<Rightarrow> s\<lparr>workers := workers s @ [wk\<lparr>w_pc := AtRead\<rparr>]\<rparr>
      | Step i \<Rightarrow>
          if i < length (workers s) then
            (case worker_step (workers s ! i) (shared s) of
               (wk', w') \<Rightarrow> \<lparr>shared = w', workers = (workers s)[i := wk']\<rparr>)
          else s)"

definition initial :: "'p \<Rightarrow> ('c, 'p, 'r) system" where
  "initial p = \<lparr>shared = \<lparr>table = Map.empty, outside = p\<rparr>, workers = []\<rparr>"

definition run :: "('c, 'p, 'r) sched list \<Rightarrow> ('c, 'p, 'r) system \<Rightarrow> ('c, 'p, 'r) system" where
  "run sch s = foldl sys_step s sch"

text \<open>A worker alone: its steps in a row, until it returns or raises.\<close>

partial_function (option) run_worker ::
  "('c, 'p, 'r) worker \<Rightarrow> 'p world \<Rightarrow> ((exc + nat \<times> 'r option) \<times> 'p world) option" where
  "run_worker wk w =
     (case w_pc wk of
        Returned rv \<Rightarrow> Some (Inr rv, w)
      | Raised e \<Rightarrow> Some (Inl e, w)
      | _ \<Rightarrow> (case worker_step wk w of (wk', w') \<Rightarrow> run_worker wk' w'))"

text \<open>A worker as \<^verbatim>\<open>Arrive\<close> starts it.\<close>

definition new_worker ::
  "event \<Rightarrow> 'c \<Rightarrow> S3Lock \<Rightarrow> ('c, 'p, 'r) processing \<Rightarrow> 'p backoff \<Rightarrow> ('c, 'p, 'r) worker" where
  "new_worker ev ctx lock processing_fn backoff_fn =
     \<lparr>w_event = ev, w_ctx = ctx, w_lock = lock, w_processing_fn = processing_fn,
      w_backoff_fn = backoff_fn, w_pc = AtRead\<rparr>"

text \<open>Where a worker at a given place would end, told by the function itself.\<close>

definition resume ::
  "('c, 'p, 'r) worker \<Rightarrow> 'p world \<Rightarrow> ((exc + nat \<times> 'r option) \<times> 'p world) option" where
  "resume wk w =
     (case w_pc wk of
        AtRead \<Rightarrow>
          handle_notification_if_up_to_date (w_event wk) (w_ctx wk) (w_lock wk)
            (w_processing_fn wk) (w_backoff_fn wk) w
      | AtBackoff \<Rightarrow>
          (case w_backoff_fn wk (outside w) of
             (Inl e, p') \<Rightarrow> Some (Inl e, w\<lparr>outside := p'\<rparr>)
           | (Inr u, p') \<Rightarrow>
               handle_notification_if_up_to_date (w_event wk) (w_ctx wk) (w_lock wk)
                 (w_processing_fn wk) (w_backoff_fn wk) (w\<lparr>outside := p'\<rparr>))
      | AtLock old \<Rightarrow>
          (case lockForSequencer (w_lock wk) old (object_sequencer (w_event wk)) (table w) of
             (acquired, t') \<Rightarrow>
               if \<not> acquired then
                 (case w_backoff_fn wk (outside w) of
                    (Inl e, p') \<Rightarrow> Some (Inl e, \<lparr>table = t', outside = p'\<rparr>)
                  | (Inr u, p') \<Rightarrow>
                      handle_notification_if_up_to_date (w_event wk) (w_ctx wk) (w_lock wk)
                        (w_processing_fn wk) (w_backoff_fn wk) \<lparr>table = t', outside = p'\<rparr>)
               else
                 (case w_processing_fn wk (w_event wk) (w_ctx wk) (outside w) of
                    (Inl e, p') \<Rightarrow>
                      Some (Inl e, \<lparr>table = unlockAndRollBack (w_lock wk) old t', outside = p'\<rparr>)
                  | (Inr v, p') \<Rightarrow>
                      Some (Inr (OUTCOME_PROCESSED, Some v),
                            \<lparr>table = unlock (w_lock wk) t', outside = p'\<rparr>)))
      | AtProcess old \<Rightarrow>
          (case w_processing_fn wk (w_event wk) (w_ctx wk) (outside w) of
             (Inl e, p') \<Rightarrow>
               Some (Inl e, \<lparr>table = unlockAndRollBack (w_lock wk) old (table w), outside = p'\<rparr>)
           | (Inr v, p') \<Rightarrow>
               Some (Inr (OUTCOME_PROCESSED, Some v),
                     \<lparr>table = unlock (w_lock wk) (table w), outside = p'\<rparr>))
      | AtRollback old e \<Rightarrow>
          Some (Inl e, w\<lparr>table := unlockAndRollBack (w_lock wk) old (table w)\<rparr>)
      | AtUnlock old v \<Rightarrow>
          Some (Inr (OUTCOME_PROCESSED, Some v), w\<lparr>table := unlock (w_lock wk) (table w)\<rparr>)
      | Returned rv \<Rightarrow> Some (Inr rv, w)
      | Raised e \<Rightarrow> Some (Inl e, w))"

subsection \<open>The sequencer of a key, stored and durable\<close>






subsection \<open>What every reachable system keeps\<close>





section \<open>Fixtures\<close>

text \<open>The values of the repository's tests: the key \<^verbatim>\<open>foo\<close> in the bucket \<^verbatim>\<open>bar\<close>, a mock
  processing function that returns \<^verbatim>\<open>"hello"\<close> and one that raises, each counting its
  calls (the world outside the table is the number of callback calls so far), and a
  backoff mock that raises.\<close>

definition event_with :: "string \<Rightarrow> event" where
  "event_with sq = \<lparr>bucket_name = ''bar'', object_key = ''foo'', object_sequencer = sq\<rparr>"

definition lock_of :: "string \<Rightarrow> S3Lock" where
  "lock_of request_id = \<lparr>lock_key = ''bar/foo'', execution_id = request_id\<rparr>"

definition item_with :: "attr_value \<Rightarrow> string \<Rightarrow> string \<Rightarrow> item" where
  "item_with sq status owner =
     \<lparr>s3key = ''bar/foo'', sequencer = Some sq, lock_status = Some (S status),
      updated_by = Some (S owner)\<rparr>"

definition table_with :: "item \<Rightarrow> locktable" where
  "table_with it = Map.empty(''bar/foo'' \<mapsto> it)"

definition returns_hello :: "(unit, nat, string) processing" where
  "returns_hello ev ctx n = (Inr ''hello'', Suc n)"

definition raises_error :: "(unit, nat, string) processing" where
  "raises_error ev ctx n = (Inl (OtherException ''RuntimeError''), Suc n)"

definition raising_backoff :: "nat backoff" where
  "raising_backoff n = (Inl (OtherException ''Exception''), n)"

text \<open>A backoff that returns, and moves the clock.\<close>

definition ticking_backoff :: "nat backoff" where
  "ticking_backoff n = (Inr (), Suc n)"

text \<open>A backoff that gives up: it returns while fewer than \<open>limit\<close> callback calls have
  been made, and raises after that.\<close>

definition patient_backoff :: "nat \<Rightarrow> nat backoff" where
  "patient_backoff limit n =
     (if n < limit then (Inr (), Suc n) else (Inl (OtherException ''Timeout''), n))"

text \<open>A record whose lock status is \<^verbatim>\<open>NULL\<close>: Python reads it as not locked, and the
  condition of \<^verbatim>\<open>lockForSequencer\<close> does not hold of it.\<close>

definition item_with_null_status :: "attr_value \<Rightarrow> string \<Rightarrow> item" where
  "item_with_null_status sq owner =
     \<lparr>s3key = ''bar/foo'', sequencer = Some sq, lock_status = Some NULL,
      updated_by = Some (S owner)\<rparr>"

text \<open>Two notifications for one key race: both workers read before either locks, and
  the worker for \<^verbatim>\<open>"20"\<close> takes the lock.\<close>

definition racing_workers :: "(unit, nat, string) system" where
  "racing_workers =
     run [Arrive (new_worker (event_with ''10'') () (lock_of ''req-A'') returns_hello
                    (patient_backoff 2)),
          Arrive (new_worker (event_with ''20'') () (lock_of ''req-B'') returns_hello
                    default_backoff),
          Step 0, Step 1, Step 1]
       (initial 0)"


section \<open>The specification's compare-and-swap\<close>

text \<open>The condition under which the specification's \<^verbatim>\<open>CompareAndSwap\<close> succeeds, in its own
  words: no record exists and the expected values stand for the unseen state, or the
  record's sequencer and lock flag equal the expected ones (the source always expects
  the unlocked value).\<close>

definition spec_CompareAndSwap_succeeds :: "locktable \<Rightarrow> string \<Rightarrow> string option \<Rightarrow> bool" where
  "spec_CompareAndSwap_succeeds t k expectedSequencer =
     (case t k of
        None \<Rightarrow> expectedSequencer = None
      | Some it \<Rightarrow> sequencer it = Some (serialize expectedSequencer) \<and>
                   lock_status it = Some (S LOCK_VALUE_UNLOCKED))"

section \<open>Facts about the methods of S3Lock\<close>

lemma serialize_deserialize [simp]: "serialize (deserialize a) = a"
  by (cases a) simp_all

lemma deserialize_serialize [simp]: "deserialize (serialize x) = x"
  by (cases x) simp_all

lemma newer_iff: "(case old of None \<Rightarrow> True | Some x \<Rightarrow> x < sq) = (old < Some sq)"
  by (cases old) simp_all

lemma getCurrentSequencer_absent:
  "t (lock_key lock) = None \<Longrightarrow> getCurrentSequencer lock t = Inr None"
  by (simp add: getCurrentSequencer_def get_item_def)

lemma getCurrentSequencer_unlocked:
  "t (lock_key lock) = Some it \<Longrightarrow> lock_status it = Some (S LOCK_VALUE_UNLOCKED) \<Longrightarrow>
   sequencer it = Some sq \<Longrightarrow> getCurrentSequencer lock t = Inr (deserialize sq)"
  by (simp add: getCurrentSequencer_def get_item_def LOCK_VALUE_UNLOCKED_def)

lemma getCurrentSequencer_locked:
  "t (lock_key lock) = Some it \<Longrightarrow> lock_status it = Some (S LOCK_VALUE_LOCKED) \<Longrightarrow>
   sequencer it = Some sq \<Longrightarrow> getCurrentSequencer lock t = Inl ItemLockedException"
  by (simp add: getCurrentSequencer_def get_item_def LOCK_VALUE_LOCKED_def)

lemma lockForSequencer_eq:
  "lockForSequencer lock old new t =
     (if t (lock_key lock) = None \<or>
         (\<exists>it. t (lock_key lock) = Some it \<and> sequencer it = Some (serialize old) \<and>
               lock_status it = Some (S LOCK_VALUE_UNLOCKED))
      then (True, t(lock_key lock \<mapsto>
              \<lparr>s3key = lock_key lock, sequencer = Some (S new),
               lock_status = Some (S LOCK_VALUE_LOCKED),
               updated_by = Some (S (execution_id lock))\<rparr>))
      else (False, t))"
  by (auto simp: lockForSequencer_def put_item_def attribute_not_exists_key_def attr_equals_def
           split: option.splits)

lemma unlock_present:
  "t (lock_key lock) = Some it \<Longrightarrow>
   unlock lock t = t(lock_key lock \<mapsto>
     it\<lparr>lock_status := Some (S LOCK_VALUE_UNLOCKED),
        updated_by := Some (S (execution_id lock))\<rparr>)"
  by (simp add: unlock_def update_item_def)


section \<open>One round of the loop\<close>

lemma handle_acquired:
  assumes "getCurrentSequencer lock (table w) = Inr oldSeq"
    and "oldSeq < Some (object_sequencer ev)"
    and "lockForSequencer lock oldSeq (object_sequencer ev) (table w) = (True, t')"
  shows "handle_notification_if_up_to_date ev ctx lock processing_fn backoff_fn w =
           (case processing_fn ev ctx (outside w) of
              (Inl e, p') \<Rightarrow>
                Some (Inl e, \<lparr>table = unlockAndRollBack lock oldSeq t', outside = p'\<rparr>)
            | (Inr v, p') \<Rightarrow>
                Some (Inr (OUTCOME_PROCESSED, Some v), \<lparr>table = unlock lock t', outside = p'\<rparr>))"
  by (subst handle_notification_if_up_to_date.simps)
     (simp add: assms(1,3) assms(2)[folded newer_iff])

lemma handle_unseen:
  assumes "table w (lock_key lock) = None"
  shows "handle_notification_if_up_to_date ev ctx lock processing_fn backoff_fn w =
           (case processing_fn ev ctx (outside w) of
              (Inl e, p') \<Rightarrow>
                Some (Inl e, \<lparr>table = (table w)(lock_key lock \<mapsto>
                        \<lparr>s3key = lock_key lock, sequencer = Some NULL,
                         lock_status = Some (S LOCK_VALUE_UNLOCKED),
                         updated_by = Some (S (execution_id lock))\<rparr>), outside = p'\<rparr>)
            | (Inr v, p') \<Rightarrow>
                Some (Inr (OUTCOME_PROCESSED, Some v),
                      \<lparr>table = (table w)(lock_key lock \<mapsto>
                        \<lparr>s3key = lock_key lock, sequencer = Some (S (object_sequencer ev)),
                         lock_status = Some (S LOCK_VALUE_UNLOCKED),
                         updated_by = Some (S (execution_id lock))\<rparr>), outside = p'\<rparr>))"
proof -
  have rd: "getCurrentSequencer lock (table w) = Inr None"
    using assms by (rule getCurrentSequencer_absent)
  have lk: "lockForSequencer lock None (object_sequencer ev) (table w) =
      (True, (table w)(lock_key lock \<mapsto>
              \<lparr>s3key = lock_key lock, sequencer = Some (S (object_sequencer ev)),
               lock_status = Some (S LOCK_VALUE_LOCKED),
               updated_by = Some (S (execution_id lock))\<rparr>))"
    using assms by (simp add: lockForSequencer_eq)
  show ?thesis
    by (simp add: handle_acquired[OF rd _ lk] unlockAndRollBack_def unlock_def update_item_def
             split: prod.splits sum.splits)
qed


lemma handle_stale:
  assumes "table w (lock_key lock) = Some it"
    and "lock_status it = Some (S LOCK_VALUE_UNLOCKED)"
    and "sequencer it = Some (S oldSeq)"
    and "object_sequencer ev \<le> oldSeq"
  shows "handle_notification_if_up_to_date ev ctx lock processing_fn backoff_fn w
           = Some (Inr (OUTCOME_OUT_OF_DATE, None), w)"
proof -
  have rd: "getCurrentSequencer lock (table w) = Inr (Some oldSeq)"
    using assms(1,2,3) getCurrentSequencer_unlocked[of "table w" lock it "S oldSeq"] by simp
  have stale: "\<not> oldSeq < object_sequencer ev"
    using assms(4) by simp
  show ?thesis
    by (subst handle_notification_if_up_to_date.simps) (simp add: rd stale)
qed

lemma handle_locked_read:
  assumes "getCurrentSequencer lock (table w) = Inl ItemLockedException"
  shows "handle_notification_if_up_to_date ev ctx lock processing_fn backoff_fn w =
           (case backoff_fn (outside w) of
              (Inl e', p') \<Rightarrow> Some (Inl e', w\<lparr>outside := p'\<rparr>)
            | (Inr u, p') \<Rightarrow>
                handle_notification_if_up_to_date ev ctx lock processing_fn backoff_fn
                  (w\<lparr>outside := p'\<rparr>))"
  by (subst handle_notification_if_up_to_date.simps) (simp add: assms)

text \<open>An \<^verbatim>\<open>ItemLockedException\<close> that leaves the function was raised by a callback.\<close>

lemma item_locked_raised_by_callback:
  assumes run: "handle_notification_if_up_to_date ev ctx lock processing_fn backoff_fn w = Some y"
  shows "(\<forall>p. fst (backoff_fn p) \<noteq> Inl ItemLockedException) \<longrightarrow>
        (\<forall>p. fst (processing_fn ev ctx p) \<noteq> Inl ItemLockedException) \<longrightarrow>
        fst y \<noteq> Inl ItemLockedException"
  apply (rule handle_notification_if_up_to_date.raw_induct
      [where P = "\<lambda>ev ctx lock processing_fn backoff_fn w y.
        (\<forall>p. fst (backoff_fn p) \<noteq> Inl ItemLockedException) \<longrightarrow>
        (\<forall>p. fst (processing_fn ev ctx p) \<noteq> Inl ItemLockedException) \<longrightarrow>
        fst y \<noteq> Inl ItemLockedException", OF _ run])
  subgoal premises prems for h ev ctx lock processing_fn backoff_fn w y
  proof (intro impI)
    assume bf: "\<forall>p. fst (backoff_fn p) \<noteq> Inl ItemLockedException"
      and pf: "\<forall>p. fst (processing_fn ev ctx p) \<noteq> Inl ItemLockedException"
    have bf': "fst (backoff_fn (outside w)) \<noteq> Inl ItemLockedException" using bf by simp
    have pf': "fst (processing_fn ev ctx (outside w)) \<noteq> Inl ItemLockedException" using pf by simp
    have rec: "\<And>w'. h ev ctx lock processing_fn backoff_fn w' = Some y \<Longrightarrow>
                fst y \<noteq> Inl ItemLockedException"
      using prems(1) bf pf by blast
    show "fst y \<noteq> Inl ItemLockedException"
      using prems(2) bf' pf' rec
      by (auto split: sum.splits if_splits prod.splits option.splits)
  qed
  done

section \<open>The worker alone is the function\<close>

lemma world_eq: "(w :: 'p world)\<lparr>table := t\<rparr> = \<lparr>table = t, outside = outside w\<rparr>"
  by (cases w) simp

lemma resume_step:
  "resume wk w = (case worker_step wk w of (wk', w') \<Rightarrow> resume wk' w')"
proof (cases "w_pc wk")
  case AtRead
  show ?thesis
    by (simp add: resume_def worker_step_def AtRead newer_iff
          handle_notification_if_up_to_date.simps
            [of "w_event wk" "w_ctx wk" "w_lock wk" "w_processing_fn wk" "w_backoff_fn wk" w]
          split: sum.splits prod.splits)
next
  case AtBackoff
  then show ?thesis
    by (simp add: resume_def worker_step_def split: sum.splits prod.splits)
next
  case (AtLock old)
  then show ?thesis
    by (simp add: resume_def worker_step_def world_eq split: sum.splits prod.splits)
next
  case (AtProcess old)
  then show ?thesis
    by (simp add: resume_def worker_step_def world_eq split: sum.splits prod.splits)
qed (simp_all add: resume_def worker_step_def)


lemma run_worker_resume:
  assumes "run_worker wk w = Some y"
  shows "resume wk w = Some y"
  apply (rule run_worker.raw_induct[where P = "\<lambda>wk w y. resume wk w = Some y", OF _ assms])
  subgoal premises prems for h wk w y
  proof (cases "w_pc wk")
    case (Returned rv)
    with prems(2) show ?thesis by (simp add: resume_def)
  next
    case (Raised e)
    with prems(2) show ?thesis by (simp add: resume_def)
  next
    case AtRead
    with prems(2) have "(case worker_step wk w of (wk', w') \<Rightarrow> h wk' w') = Some y" by simp
    then show ?thesis using prems(1) by (subst resume_step) (auto split: prod.splits)
  next
    case AtBackoff
    with prems(2) have "(case worker_step wk w of (wk', w') \<Rightarrow> h wk' w') = Some y" by simp
    then show ?thesis using prems(1) by (subst resume_step) (auto split: prod.splits)
  next
    case (AtLock old)
    with prems(2) have "(case worker_step wk w of (wk', w') \<Rightarrow> h wk' w') = Some y" by simp
    then show ?thesis using prems(1) by (subst resume_step) (auto split: prod.splits)
  next
    case (AtProcess old)
    with prems(2) have "(case worker_step wk w of (wk', w') \<Rightarrow> h wk' w') = Some y" by simp
    then show ?thesis using prems(1) by (subst resume_step) (auto split: prod.splits)
  next
    case (AtRollback old e)
    with prems(2) have "(case worker_step wk w of (wk', w') \<Rightarrow> h wk' w') = Some y" by simp
    then show ?thesis using prems(1) by (subst resume_step) (auto split: prod.splits)
  next
    case (AtUnlock old v)
    with prems(2) have "(case worker_step wk w of (wk', w') \<Rightarrow> h wk' w') = Some y" by simp
    then show ?thesis using prems(1) by (subst resume_step) (auto split: prod.splits)
  qed
  done

lemma run_worker_pc:
  "w_pc wk = Returned rv \<Longrightarrow> run_worker wk w = Some (Inr rv, w)"
  "w_pc wk = Raised e \<Longrightarrow> run_worker wk w = Some (Inl e, w)"
  "w_pc wk = AtBackoff \<Longrightarrow> run_worker wk w =
     (case worker_step wk w of (wk', w') \<Rightarrow> run_worker wk' w')"
  "w_pc wk = AtLock old \<Longrightarrow> run_worker wk w =
     (case worker_step wk w of (wk', w') \<Rightarrow> run_worker wk' w')"
  "w_pc wk = AtProcess old \<Longrightarrow> run_worker wk w =
     (case worker_step wk w of (wk', w') \<Rightarrow> run_worker wk' w')"
  "w_pc wk = AtRollback old e \<Longrightarrow> run_worker wk w =
     (case worker_step wk w of (wk', w') \<Rightarrow> run_worker wk' w')"
  "w_pc wk = AtUnlock old v \<Longrightarrow> run_worker wk w =
     (case worker_step wk w of (wk', w') \<Rightarrow> run_worker wk' w')"
  by (subst run_worker.simps, simp)+

lemma run_worker_AtRead:
  "w_pc wk = AtRead \<Longrightarrow> run_worker wk w =
     (case worker_step wk w of (wk', w') \<Rightarrow> run_worker wk' w')"
  by (subst run_worker.simps) simp

lemma run_worker_unfold:
  "run_worker (new_worker ev ctx lock processing_fn backoff_fn) w =
     (case getCurrentSequencer lock (table w) of
        Inl e \<Rightarrow>
          (if e = ItemLockedException then
             (case backoff_fn (outside w) of
                (Inl e', p') \<Rightarrow> Some (Inl e', w\<lparr>outside := p'\<rparr>)
              | (Inr u, p') \<Rightarrow>
                  run_worker (new_worker ev ctx lock processing_fn backoff_fn)
                    (w\<lparr>outside := p'\<rparr>))
           else Some (Inl e, w))
      | Inr oldsequencer \<Rightarrow>
          (if (case oldsequencer of None \<Rightarrow> True | Some old \<Rightarrow> old < object_sequencer ev) then
             (case lockForSequencer lock oldsequencer (object_sequencer ev) (table w) of
                (acquired, t') \<Rightarrow>
                  if \<not> acquired then
                    (case backoff_fn (outside w) of
                       (Inl e', p') \<Rightarrow> Some (Inl e', \<lparr>table = t', outside = p'\<rparr>)
                     | (Inr u, p') \<Rightarrow>
                         run_worker (new_worker ev ctx lock processing_fn backoff_fn)
                           \<lparr>table = t', outside = p'\<rparr>)
                  else
                    (case processing_fn ev ctx (outside w) of
                       (Inl e, p') \<Rightarrow>
                         Some (Inl e,
                               \<lparr>table = unlockAndRollBack lock oldsequencer t', outside = p'\<rparr>)
                     | (Inr v, p') \<Rightarrow>
                         Some (Inr (OUTCOME_PROCESSED, Some v),
                               \<lparr>table = unlock lock t', outside = p'\<rparr>)))
           else Some (Inr (OUTCOME_OUT_OF_DATE, None), w)))"
  by (subst run_worker_AtRead)
     (simp_all add: new_worker_def worker_step_def run_worker_pc world_eq newer_iff
        split: sum.splits prod.splits)

lemma handle_run_worker:
  assumes "handle_notification_if_up_to_date ev ctx lock processing_fn backoff_fn w = Some y"
  shows "run_worker (new_worker ev ctx lock processing_fn backoff_fn) w = Some y"
  apply (rule handle_notification_if_up_to_date.raw_induct
      [where P = "\<lambda>ev ctx lock processing_fn backoff_fn w y.
         run_worker (new_worker ev ctx lock processing_fn backoff_fn) w = Some y", OF _ assms])
  subgoal premises prems for h ev ctx lock processing_fn backoff_fn w y
  proof -
    have ih: "\<And>w'. h ev ctx lock processing_fn backoff_fn w' = Some y \<Longrightarrow>
                run_worker (new_worker ev ctx lock processing_fn backoff_fn) w' = Some y"
      using prems(1) by blast
    show ?thesis
      using prems(2) ih
      by (subst run_worker_unfold)
         (auto split: sum.splits if_splits prod.splits option.splits)
  qed
  done

text \<open>The function is the worker run alone from its first place: same result, same final
  world, and neither returns when the other does not.\<close>

theorem handle_is_a_worker_alone:
  "handle_notification_if_up_to_date ev ctx lock processing_fn backoff_fn w
     = run_worker (new_worker ev ctx lock processing_fn backoff_fn) w"
proof (cases "run_worker (new_worker ev ctx lock processing_fn backoff_fn) w")
  case None
  show ?thesis
  proof (cases "handle_notification_if_up_to_date ev ctx lock processing_fn backoff_fn w")
    case (Some y)
    from handle_run_worker[OF this] None show ?thesis by simp
  qed (simp add: None)
next
  case (Some y)
  from run_worker_resume[OF this] Some show ?thesis
    by (simp add: resume_def new_worker_def)
qed

section \<open>Schedules\<close>

lemma run_Nil [simp]: "run [] s = s"
  by (simp add: run_def)

lemma run_Cons [simp]: "run (a # sch) s = run sch (sys_step s a)"
  by (simp add: run_def)

lemma run_append: "run (sch @ sch') s = run sch' (run sch s)"
  by (simp add: run_def)

lemma sys_step_other:
  assumes "i < length (workers s)" and "a \<noteq> Step i"
  shows "i < length (workers (sys_step s a)) \<and> workers (sys_step s a) ! i = workers s ! i"
proof (cases a)
  case (Arrive wk)
  with assms(1) show ?thesis by (simp add: sys_step_def nth_append)
next
  case (Step j)
  with assms show ?thesis by (auto simp: sys_step_def split: prod.splits)
qed

lemma run_others:
  "i < length (workers s) \<Longrightarrow> Step i \<notin> set sch \<Longrightarrow>
   i < length (workers (run sch s)) \<and> workers (run sch s) ! i = workers s ! i"
proof (induction sch arbitrary: s)
  case Nil
  then show ?case by simp
next
  case (Cons a sch)
  from Cons.prems have a: "a \<noteq> Step i" and rest: "Step i \<notin> set sch" by auto
  from sys_step_other[OF Cons.prems(1) a] Cons.IH[of "sys_step s a"] rest
  show ?case by simp
qed

lemma sys_step_Step:
  assumes "i < length (workers s)"
  shows "sys_step s (Step i) =
           \<lparr>shared = snd (worker_step (workers s ! i) (shared s)),
            workers = (workers s)[i := fst (worker_step (workers s ! i) (shared s))]\<rparr>"
  using assms by (simp add: sys_step_def split: prod.splits)

lemma lockForSequencer_failed:
  "\<not> fst (lockForSequencer lock old new t) \<Longrightarrow> lockForSequencer lock old new t = (False, t)"
  by (simp add: lockForSequencer_eq split: if_splits)

section \<open>The invariant of the coordination\<close>























section \<open>Rounds that back off\<close>

lemma handle_failed_lock:
  assumes "getCurrentSequencer lock (table w) = Inr old"
    and "old < Some (object_sequencer ev)"
    and "\<not> fst (lockForSequencer lock old (object_sequencer ev) (table w))"
  shows "handle_notification_if_up_to_date ev ctx lock processing_fn backoff_fn w =
           (case backoff_fn (outside w) of
              (Inl e', p') \<Rightarrow> Some (Inl e', w\<lparr>outside := p'\<rparr>)
            | (Inr u, p') \<Rightarrow>
                handle_notification_if_up_to_date ev ctx lock processing_fn backoff_fn
                  (w\<lparr>outside := p'\<rparr>))"
proof -
  have w: "\<And>p'. \<lparr>table = table w, outside = p'\<rparr> = w\<lparr>outside := p'\<rparr>" by (cases w) simp
  show ?thesis
    by (subst handle_notification_if_up_to_date.simps)
       (simp add: assms(1) assms(2)[folded newer_iff] lockForSequencer_failed[OF assms(3)] w
          split: prod.splits sum.splits)
qed

lemma locked_read_never_returns:
  assumes run: "handle_notification_if_up_to_date ev ctx lock processing_fn backoff_fn w = Some y"
  shows "getCurrentSequencer lock (table w) = Inl ItemLockedException \<longrightarrow>
         (\<forall>p. \<exists>u p'. backoff_fn p = (Inr u, p')) \<longrightarrow> False"
  apply (rule handle_notification_if_up_to_date.raw_induct
      [where P = "\<lambda>ev ctx lock processing_fn backoff_fn w y.
        getCurrentSequencer lock (table w) = Inl ItemLockedException \<longrightarrow>
         (\<forall>p. \<exists>u p'. backoff_fn p = (Inr u, p')) \<longrightarrow> False", OF _ run])
  subgoal premises prems for h ev ctx lock processing_fn backoff_fn w y
  proof (intro impI)
    assume locked: "getCurrentSequencer lock (table w) = Inl ItemLockedException"
      and returns: "\<forall>p. \<exists>u p'. backoff_fn p = (Inr u, p')"
    from returns obtain u p' where b: "backoff_fn (outside w) = (Inr u, p')" by blast
    from prems(2) locked b
    have "h ev ctx lock processing_fn backoff_fn (w\<lparr>outside := p'\<rparr>) = Some y" by simp
    from prems(1)[OF this]
    have "getCurrentSequencer lock (table (w\<lparr>outside := p'\<rparr>)) = Inl ItemLockedException \<longrightarrow>
          (\<forall>p. \<exists>u p'. backoff_fn p = (Inr u, p')) \<longrightarrow> False" .
    moreover have "getCurrentSequencer lock (table (w\<lparr>outside := p'\<rparr>)) = Inl ItemLockedException"
      using locked by simp
    ultimately show False using returns by blast
  qed
  done

lemmas fixture_defs =
  event_with_def lock_of_def item_with_def table_with_def returns_hello_def raises_error_def
  raising_backoff_def ticking_backoff_def default_backoff_def LOCK_VALUE_LOCKED_def LOCK_VALUE_UNLOCKED_def

section \<open>The claims\<close>

text \<open>C1. When the record of the key is unlocked with sequencer \<open>oldSeq\<close> and the
  notification's sequencer is at most \<open>oldSeq\<close> in the order of strings (equal counts),
  the function returns the outcome \<^verbatim>\<open>OUTCOME_OUT_OF_DATE\<close> with no value and leaves the
  world as it was: the table is not written, and neither callback has run, whatever the
  callbacks are.\<close>

theorem stale_notification_is_skipped:
  assumes "table w (lock_key lock) = Some it"
    and "lock_status it = Some (S LOCK_VALUE_UNLOCKED)"
    and "sequencer it = Some (S oldSeq)"
    and "object_sequencer ev \<le> oldSeq"
  shows "handle_notification_if_up_to_date ev ctx lock processing_fn backoff_fn w
           = Some (Inr (OUTCOME_OUT_OF_DATE, None), w)"
  using assms by (rule handle_stale)

theorem stale_notification_is_skipped_witness:
  "handle_notification_if_up_to_date (event_with ''1f'') () (lock_of ''req-2'') returns_hello
       raising_backoff \<lparr>table = table_with (item_with (S ''1f'') '''' ''req-1''), outside = 0\<rparr>
     = Some (Inr (OUTCOME_OUT_OF_DATE, None),
             \<lparr>table = table_with (item_with (S ''1f'') '''' ''req-1''), outside = 0\<rparr>)
   \<and> handle_notification_if_up_to_date (event_with ''0'') () (lock_of ''req-2'') returns_hello
       raising_backoff \<lparr>table = table_with (item_with (S ''1f'') '''' ''req-1''), outside = 0\<rparr>
     = Some (Inr (OUTCOME_OUT_OF_DATE, None),
             \<lparr>table = table_with (item_with (S ''1f'') '''' ''req-1''), outside = 0\<rparr>)"
  using stale_notification_is_skipped
      [of "\<lparr>table = table_with (item_with (S ''1f'') '''' ''req-1''), outside = 0\<rparr>"
          "lock_of ''req-2''" "item_with (S ''1f'') '''' ''req-1''" "''1f''" "event_with ''1f''"
          "()" returns_hello raising_backoff]
    stale_notification_is_skipped
      [of "\<lparr>table = table_with (item_with (S ''1f'') '''' ''req-1''), outside = 0\<rparr>"
          "lock_of ''req-2''" "item_with (S ''1f'') '''' ''req-1''" "''1f''" "event_with ''0''"
          "()" returns_hello raising_backoff]
  by (simp add: fixture_defs)

text \<open>C2 (amended). \<^verbatim>\<open>lockForSequencer\<close> returns \<^verbatim>\<open>True\<close> and writes the new record exactly when
  there is no record for the key (whatever the expected sequencer is), or the record's
  sequencer equals the expected one and its lock status is the unlocked value; in every
  other case it returns \<^verbatim>\<open>False\<close> and the table is unchanged. It has no other result.\<close>

theorem lockForSequencer_succeeds_iff:
  "lockForSequencer lock oldSequencer newSequencer t =
     (if (case t (lock_key lock) of
            None \<Rightarrow> True
          | Some it \<Rightarrow> sequencer it = Some (serialize oldSequencer) \<and>
                       lock_status it = Some (S LOCK_VALUE_UNLOCKED))
      then (True, t(lock_key lock \<mapsto>
              \<lparr>s3key = lock_key lock, sequencer = Some (S newSequencer),
               lock_status = Some (S LOCK_VALUE_LOCKED),
               updated_by = Some (S (execution_id lock))\<rparr>))
      else (False, t))"
  by (simp add: lockForSequencer_eq split: option.splits)

text \<open>C2 as stated asks, when no record exists, that the expected values stand for the unseen
  state. With no record and the expected sequencer \<^verbatim>\<open>"05"\<close> the source's condition
  \<^verbatim>\<open>attribute_not_exists(s3key)\<close> holds and the write goes through.\<close>

theorem lockForSequencer_without_record_counterexample:
  "fst (lockForSequencer (lock_of ''req-1'') (Some ''05'') ''10'' Map.empty)
   \<and> \<not> spec_CompareAndSwap_succeeds Map.empty (lock_key (lock_of ''req-1'')) (Some ''05'')"
  by (simp add: lockForSequencer_eq spec_CompareAndSwap_succeeds_def)

text \<open>C3. When the read returned \<open>oldSeq\<close>, the lock was acquired for the notification's
  sequencer and the processing callback raises \<open>e\<close>, the function raises \<open>e\<close>, and the
  table it leaves is the one before the attempt with the key's record unlocked and its
  sequencer back at \<open>oldSeq\<close>.\<close>

theorem rollback_after_processing_error:
  assumes "getCurrentSequencer lock (table w) = Inr oldSeq"
    and "oldSeq < Some (object_sequencer ev)"
    and "lockForSequencer lock oldSeq (object_sequencer ev) (table w) = (True, t')"
    and "processing_fn ev ctx (outside w) = (Inl e, p')"
  shows "handle_notification_if_up_to_date ev ctx lock processing_fn backoff_fn w
           = Some (Inl e, \<lparr>table = unlockAndRollBack lock oldSeq t', outside = p'\<rparr>)
         \<and> unlockAndRollBack lock oldSeq t'
           = (table w)(lock_key lock \<mapsto>
                \<lparr>s3key = lock_key lock, sequencer = Some (serialize oldSeq),
                 lock_status = Some (S LOCK_VALUE_UNLOCKED),
                 updated_by = Some (S (execution_id lock))\<rparr>)"
proof -
  have t': "t' = (table w)(lock_key lock \<mapsto>
              \<lparr>s3key = lock_key lock, sequencer = Some (S (object_sequencer ev)),
               lock_status = Some (S LOCK_VALUE_LOCKED),
               updated_by = Some (S (execution_id lock))\<rparr>)"
    using assms(3) by (simp add: lockForSequencer_eq split: if_splits)
  show ?thesis
    by (simp add: handle_acquired[OF assms(1,2,3)] assms(4))
       (simp add: t' unlockAndRollBack_def update_item_def)
qed

theorem rollback_after_processing_error_witness:
  "handle_notification_if_up_to_date (event_with ''1'') () (lock_of ''req-2'') raises_error
       default_backoff \<lparr>table = table_with (item_with (S ''0'') '''' ''req-1''), outside = 0\<rparr>
     = Some (Inl (OtherException ''RuntimeError''),
             \<lparr>table = table_with (item_with (S ''0'') '''' ''req-2''), outside = 1\<rparr>)"
  using rollback_after_processing_error
      [of "lock_of ''req-2''"
          "\<lparr>table = table_with (item_with (S ''0'') '''' ''req-1''), outside = 0\<rparr>"
          "Some ''0''" "event_with ''1''"
          "table_with (item_with (S ''1'') ''locked'' ''req-2'')"
          raises_error "()" "OtherException ''RuntimeError''" 1 default_backoff]
  by (simp add: fixture_defs lockForSequencer_eq getCurrentSequencer_def get_item_def)

text \<open>C5. With no record for the key, the notification is never reported out of date,
  whatever its sequencer: the processing callback runs, and when it returns \<open>v\<close> the
  outcome is \<^verbatim>\<open>OUTCOME_PROCESSED\<close> with \<open>v\<close> (when it raises, the error is raised after the
  rollback).\<close>

theorem first_notification_is_processed:
  assumes "table w (lock_key lock) = None"
  shows "(\<forall>w'. handle_notification_if_up_to_date ev ctx lock processing_fn backoff_fn w
               \<noteq> Some (Inr (OUTCOME_OUT_OF_DATE, None), w'))
       \<and> handle_notification_if_up_to_date ev ctx lock processing_fn backoff_fn w =
           (case processing_fn ev ctx (outside w) of
              (Inl e, p') \<Rightarrow>
                Some (Inl e, \<lparr>table = (table w)(lock_key lock \<mapsto>
                        \<lparr>s3key = lock_key lock, sequencer = Some NULL,
                         lock_status = Some (S LOCK_VALUE_UNLOCKED),
                         updated_by = Some (S (execution_id lock))\<rparr>), outside = p'\<rparr>)
            | (Inr v, p') \<Rightarrow>
                Some (Inr (OUTCOME_PROCESSED, Some v),
                      \<lparr>table = (table w)(lock_key lock \<mapsto>
                        \<lparr>s3key = lock_key lock, sequencer = Some (S (object_sequencer ev)),
                         lock_status = Some (S LOCK_VALUE_UNLOCKED),
                         updated_by = Some (S (execution_id lock))\<rparr>), outside = p'\<rparr>))"
  by (simp add: handle_unseen[OF assms] OUTCOME_OUT_OF_DATE_def OUTCOME_PROCESSED_def
           split: prod.splits sum.splits)

theorem first_notification_is_processed_witness:
  "handle_notification_if_up_to_date (event_with ''20'') () (lock_of ''req-1'') returns_hello
       default_backoff \<lparr>table = Map.empty, outside = 0\<rparr>
     = Some (Inr (OUTCOME_PROCESSED, Some ''hello''),
             \<lparr>table = table_with (item_with (S ''20'') '''' ''req-1''), outside = 1\<rparr>)"
  using first_notification_is_processed
      [of "\<lparr>table = Map.empty, outside = 0\<rparr>" "lock_of ''req-1''" "event_with ''20''" "()"
          returns_hello default_backoff]
  by (simp add: fixture_defs)

text \<open>C6. When the lock was acquired for the notification's sequencer and the processing
  callback returns \<open>v\<close>, the function returns \<^verbatim>\<open>OUTCOME_PROCESSED\<close> with \<open>v\<close>, and the stored
  record of the key is unlocked with the notification's sequencer.\<close>

theorem processed_outcome_and_unlocked_record:
  assumes "getCurrentSequencer lock (table w) = Inr oldSeq"
    and "oldSeq < Some (object_sequencer ev)"
    and "lockForSequencer lock oldSeq (object_sequencer ev) (table w) = (True, t')"
    and "processing_fn ev ctx (outside w) = (Inr v, p')"
  shows "handle_notification_if_up_to_date ev ctx lock processing_fn backoff_fn w
           = Some (Inr (OUTCOME_PROCESSED, Some v), \<lparr>table = unlock lock t', outside = p'\<rparr>)
         \<and> unlock lock t'
           = (table w)(lock_key lock \<mapsto>
                \<lparr>s3key = lock_key lock, sequencer = Some (S (object_sequencer ev)),
                 lock_status = Some (S LOCK_VALUE_UNLOCKED),
                 updated_by = Some (S (execution_id lock))\<rparr>)"
proof -
  have t': "t' = (table w)(lock_key lock \<mapsto>
              \<lparr>s3key = lock_key lock, sequencer = Some (S (object_sequencer ev)),
               lock_status = Some (S LOCK_VALUE_LOCKED),
               updated_by = Some (S (execution_id lock))\<rparr>)"
    using assms(3) by (simp add: lockForSequencer_eq split: if_splits)
  show ?thesis
    by (simp add: handle_acquired[OF assms(1,2,3)] assms(4))
       (simp add: t' unlock_def update_item_def)
qed

theorem processed_outcome_and_unlocked_record_witness:
  "handle_notification_if_up_to_date (event_with ''1'') () (lock_of ''req-2'') returns_hello
       default_backoff \<lparr>table = table_with (item_with (S ''0'') '''' ''req-1''), outside = 0\<rparr>
     = Some (Inr (OUTCOME_PROCESSED, Some ''hello''),
             \<lparr>table = table_with (item_with (S ''1'') '''' ''req-2''), outside = 1\<rparr>)"
  using processed_outcome_and_unlocked_record
      [of "lock_of ''req-2''"
          "\<lparr>table = table_with (item_with (S ''0'') '''' ''req-1''), outside = 0\<rparr>"
          "Some ''0''" "event_with ''1''"
          "table_with (item_with (S ''1'') ''locked'' ''req-2'')"
          returns_hello "()" "''hello''" 1 default_backoff]
  by (simp add: fixture_defs lockForSequencer_eq getCurrentSequencer_def get_item_def)

text \<open>C10. \<^verbatim>\<open>unlock\<close> on an existing record sets its lock status and its \<^verbatim>\<open>updated_by\<close> and
  nothing else: the sequencer and the key are as before, the other records are
  untouched, and nothing is asked of the record's current owner or status.\<close>

theorem unlock_writes_status_and_owner_only:
  assumes "t (lock_key lock) = Some it"
  shows "unlock lock t = t(lock_key lock \<mapsto>
            it\<lparr>lock_status := Some (S LOCK_VALUE_UNLOCKED),
               updated_by := Some (S (execution_id lock))\<rparr>)
       \<and> (\<exists>it'. unlock lock t (lock_key lock) = Some it' \<and>
                sequencer it' = sequencer it \<and> s3key it' = s3key it \<and>
                lock_status it' = Some (S LOCK_VALUE_UNLOCKED) \<and>
                updated_by it' = Some (S (execution_id lock)))"
  using assms by (simp add: unlock_present[of t lock it])

theorem unlock_writes_status_and_owner_only_witness:
  "unlock (lock_of ''req-2'') (table_with (item_with (S ''10'') ''locked'' ''req-1''))
     = table_with (item_with (S ''10'') '''' ''req-2'')"
  using unlock_writes_status_and_owner_only
      [of "table_with (item_with (S ''10'') ''locked'' ''req-1'')" "lock_of ''req-2''"
          "item_with (S ''10'') ''locked'' ''req-1''"]
  by (simp add: fixture_defs)



text \<open>C8 (amended). When the read finds the record locked, the \<^verbatim>\<open>ItemLockedException\<close> is
  caught and the backoff function is called on the current outside state. When it
  returns, the function goes on as from the top of the loop in the world the backoff
  left, with the table untouched; when it raises, that exception is raised to the caller.
  With a backoff that always returns (as \<^verbatim>\<open>_backoff\<close> does) and nobody else to unlock the
  record, the function keeps retrying and raises nothing. And as long as neither callback
  raises \<^verbatim>\<open>ItemLockedException\<close> itself, the function never raises it.\<close>

theorem locked_read_backs_off_and_retries:
  assumes "getCurrentSequencer lock (table w) = Inl ItemLockedException"
  shows "handle_notification_if_up_to_date ev ctx lock processing_fn backoff_fn w
          = (case backoff_fn (outside w) of
               (Inl e', p') \<Rightarrow> Some (Inl e', w\<lparr>outside := p'\<rparr>)
             | (Inr u, p') \<Rightarrow>
                 handle_notification_if_up_to_date ev ctx lock processing_fn backoff_fn
                   (w\<lparr>outside := p'\<rparr>))
       \<and> ((\<forall>p. \<exists>u p'. backoff_fn p = (Inr u, p')) \<longrightarrow>
          handle_notification_if_up_to_date ev ctx lock processing_fn backoff_fn w = None)
       \<and> ((\<forall>p. fst (backoff_fn p) \<noteq> Inl ItemLockedException) \<and>
          (\<forall>p. fst (processing_fn ev ctx p) \<noteq> Inl ItemLockedException) \<longrightarrow>
          (\<forall>w'. handle_notification_if_up_to_date ev ctx lock processing_fn backoff_fn w
                 \<noteq> Some (Inl ItemLockedException, w')))"
proof (intro conjI impI allI)
  show "handle_notification_if_up_to_date ev ctx lock processing_fn backoff_fn w
          = (case backoff_fn (outside w) of
               (Inl e', p') \<Rightarrow> Some (Inl e', w\<lparr>outside := p'\<rparr>)
             | (Inr u, p') \<Rightarrow>
                 handle_notification_if_up_to_date ev ctx lock processing_fn backoff_fn
                   (w\<lparr>outside := p'\<rparr>))"
    using assms by (rule handle_locked_read)
next
  assume returns: "\<forall>p. \<exists>u p'. backoff_fn p = (Inr u, p')"
  show "handle_notification_if_up_to_date ev ctx lock processing_fn backoff_fn w = None"
  proof (cases "handle_notification_if_up_to_date ev ctx lock processing_fn backoff_fn w")
    case None
    then show ?thesis .
  next
    case (Some y)
    from locked_read_never_returns[OF Some] assms returns show ?thesis by blast
  qed
next
  fix w'
  assume cb: "(\<forall>p. fst (backoff_fn p) \<noteq> Inl ItemLockedException) \<and>
          (\<forall>p. fst (processing_fn ev ctx p) \<noteq> Inl ItemLockedException)"
  show "handle_notification_if_up_to_date ev ctx lock processing_fn backoff_fn w
                 \<noteq> Some (Inl ItemLockedException, w')"
  proof
    assume "handle_notification_if_up_to_date ev ctx lock processing_fn backoff_fn w
                 = Some (Inl ItemLockedException, w')"
    from item_locked_raised_by_callback[OF this] cb show False by simp
  qed
qed

theorem locked_read_backs_off_and_retries_witness:
  "handle_notification_if_up_to_date (event_with ''1'') () (lock_of ''req-2'') returns_hello
       (patient_backoff 2)
       \<lparr>table = table_with (item_with (S ''0'') ''locked'' ''req-1''), outside = 0\<rparr>
   = Some (Inl (OtherException ''Timeout''),
           \<lparr>table = table_with (item_with (S ''0'') ''locked'' ''req-1''), outside = 2\<rparr>)
   \<and> handle_notification_if_up_to_date (event_with ''1'') () (lock_of ''req-2'') returns_hello
       ticking_backoff
       \<lparr>table = table_with (item_with (S ''0'') ''locked'' ''req-1''), outside = 0\<rparr>
   = None"
proof -
  let ?t = "table_with (item_with (S ''0'') ''locked'' ''req-1'')"
  have locked: "\<And>n :: nat. getCurrentSequencer (lock_of ''req-2'')
                   (table \<lparr>table = ?t, outside = n\<rparr>) = Inl ItemLockedException"
    by (simp add: fixture_defs getCurrentSequencer_def get_item_def)
  have round: "\<And>n. handle_notification_if_up_to_date (event_with ''1'') ()
          (lock_of ''req-2'') returns_hello (patient_backoff 2) \<lparr>table = ?t, outside = n\<rparr>
       = (if n < 2 then
            handle_notification_if_up_to_date (event_with ''1'') ()
              (lock_of ''req-2'') returns_hello (patient_backoff 2)
              \<lparr>table = ?t, outside = Suc n\<rparr>
          else Some (Inl (OtherException ''Timeout''), \<lparr>table = ?t, outside = n\<rparr>))"
  proof -
    fix n :: nat
    show "handle_notification_if_up_to_date (event_with ''1'') ()
          (lock_of ''req-2'') returns_hello (patient_backoff 2) \<lparr>table = ?t, outside = n\<rparr>
       = (if n < 2 then
            handle_notification_if_up_to_date (event_with ''1'') ()
              (lock_of ''req-2'') returns_hello (patient_backoff 2)
              \<lparr>table = ?t, outside = Suc n\<rparr>
          else Some (Inl (OtherException ''Timeout''), \<lparr>table = ?t, outside = n\<rparr>))"
      using locked_read_backs_off_and_retries
          [of "lock_of ''req-2''" "\<lparr>table = ?t, outside = n\<rparr>" "event_with ''1''" "()"
              returns_hello "patient_backoff 2"] locked[of n]
      by (simp add: patient_backoff_def)
  qed
  have "handle_notification_if_up_to_date (event_with ''1'') ()
          (lock_of ''req-2'') returns_hello (patient_backoff 2) \<lparr>table = ?t, outside = 0\<rparr>
       = Some (Inl (OtherException ''Timeout''), \<lparr>table = ?t, outside = Suc (Suc 0)\<rparr>)"
    using round[of 0] round[of "Suc 0"] round[of "Suc (Suc 0)"] by simp
  then have bounded: "handle_notification_if_up_to_date (event_with ''1'') ()
          (lock_of ''req-2'') returns_hello (patient_backoff 2) \<lparr>table = ?t, outside = 0\<rparr>
       = Some (Inl (OtherException ''Timeout''), \<lparr>table = ?t, outside = 2\<rparr>)"
    by (simp add: numeral_2_eq_2)
  have waits: "handle_notification_if_up_to_date (event_with ''1'') ()
          (lock_of ''req-2'') returns_hello ticking_backoff \<lparr>table = ?t, outside = 0\<rparr> = None"
    using locked_read_backs_off_and_retries
        [of "lock_of ''req-2''" "\<lparr>table = ?t, outside = 0\<rparr>" "event_with ''1''" "()"
            returns_hello ticking_backoff, THEN conjunct2, THEN conjunct1] locked[of 0]
    by (simp add: ticking_backoff_def)
  show ?thesis using bounded waits by simp
qed

text \<open>C8 as stated covers every input, and the backoff function is one: with the raising
  backoff of the repository's test \<^verbatim>\<open>test_backs_off_when_locked_getting_sequencer\<close>, a locked
  read ends in an error raised to the caller.\<close>

theorem locked_read_with_raising_backoff_counterexample:
  "handle_notification_if_up_to_date (event_with ''1'') () (lock_of ''req-2'') returns_hello
       raising_backoff \<lparr>table = table_with (item_with (S ''0'') ''locked'' ''req-1''), outside = 0\<rparr>
   = Some (Inl (OtherException ''Exception''),
           \<lparr>table = table_with (item_with (S ''0'') ''locked'' ''req-1''), outside = 0\<rparr>)"
  using handle_locked_read
      [of "lock_of ''req-2''"
          "\<lparr>table = table_with (item_with (S ''0'') ''locked'' ''req-1''), outside = 0\<rparr>"
          "event_with ''1''" "()" returns_hello raising_backoff]
  by (simp add: fixture_defs getCurrentSequencer_def get_item_def)

text \<open>C9. Worker \<open>i\<close> is about to call \<^verbatim>\<open>lockForSequencer\<close> and the call fails. Its step writes
  nothing and leaves it at the backoff, however the other workers run meanwhile (\<open>sch1\<close>).
  Its next step is the backoff, after which it is at the read (or has raised what the
  backoff function raised), again however the others run (\<open>sch2\<close>). From the read its
  next step reads the record anew and compares: it goes on to \<^verbatim>\<open>lockForSequencer\<close> only
  with the sequencer just read and only if that is older than the notification's, and
  otherwise returns \<^verbatim>\<open>OUTCOME_OUT_OF_DATE\<close>. The worker's steps are those of the function:
  run alone from the read, the worker is \<^verbatim>\<open>handle_notification_if_up_to_date\<close> on its
  arguments. And in the function itself, a round whose \<^verbatim>\<open>lockForSequencer\<close> fails calls
  the backoff function and goes on as from the top of the loop, the read, with the table
  untouched.\<close>

theorem failed_lock_is_followed_by_backoff_and_read:
  assumes "i < length (workers s)"
    and "w_pc (workers s ! i) = AtLock old"
    and "\<not> fst (lockForSequencer (w_lock (workers s ! i)) old
                 (object_sequencer (w_event (workers s ! i))) (table (shared s)))"
    and "Step i \<notin> set sch1"
    and "s1 = run sch1 (sys_step s (Step i))"
    and "Step i \<notin> set sch2"
    and "s2 = run sch2 (sys_step s1 (Step i))"
  shows "shared (sys_step s (Step i)) = shared s
       \<and> w_pc (workers s1 ! i) = AtBackoff
       \<and> w_pc (workers s2 ! i) =
           (case fst (w_backoff_fn (workers s ! i) (outside (shared s1))) of
              Inl e \<Rightarrow> Raised e
            | Inr u \<Rightarrow> AtRead)
       \<and> (w_pc (workers s2 ! i) = AtRead \<longrightarrow>
            w_pc (workers (sys_step s2 (Step i)) ! i) =
              (case getCurrentSequencer (w_lock (workers s ! i)) (table (shared s2)) of
                 Inl e \<Rightarrow> if e = ItemLockedException then AtBackoff else Raised e
               | Inr current \<Rightarrow>
                   if current < Some (object_sequencer (w_event (workers s ! i)))
                   then AtLock current
                   else Returned (OUTCOME_OUT_OF_DATE, None))
            \<and> table (shared (sys_step s2 (Step i))) = table (shared s2))
       \<and> (\<forall>w'. handle_notification_if_up_to_date (w_event (workers s ! i))
                 (w_ctx (workers s ! i)) (w_lock (workers s ! i))
                 (w_processing_fn (workers s ! i)) (w_backoff_fn (workers s ! i)) w'
               = run_worker ((workers s ! i)\<lparr>w_pc := AtRead\<rparr>) w')
       \<and> (getCurrentSequencer (w_lock (workers s ! i)) (table w) = Inr old' \<and>
          old' < Some (object_sequencer (w_event (workers s ! i))) \<and>
          \<not> fst (lockForSequencer (w_lock (workers s ! i)) old'
                   (object_sequencer (w_event (workers s ! i))) (table w)) \<longrightarrow>
          handle_notification_if_up_to_date (w_event (workers s ! i))
              (w_ctx (workers s ! i)) (w_lock (workers s ! i))
              (w_processing_fn (workers s ! i)) (w_backoff_fn (workers s ! i)) w
            = (case w_backoff_fn (workers s ! i) (outside w) of
                 (Inl e', p') \<Rightarrow> Some (Inl e', w\<lparr>outside := p'\<rparr>)
               | (Inr u, p') \<Rightarrow>
                   handle_notification_if_up_to_date (w_event (workers s ! i))
                     (w_ctx (workers s ! i)) (w_lock (workers s ! i))
                     (w_processing_fn (workers s ! i)) (w_backoff_fn (workers s ! i))
                     (w\<lparr>outside := p'\<rparr>)))"
proof -
  let ?wk = "workers s ! i"
  have st: "worker_step ?wk (shared s) = (?wk\<lparr>w_pc := AtBackoff\<rparr>, shared s)"
    using assms(2) lockForSequencer_failed[OF assms(3)] by (simp add: worker_step_def)
  let ?sa = "sys_step s (Step i)"
  have sa: "?sa = \<lparr>shared = shared s, workers = (workers s)[i := ?wk\<lparr>w_pc := AtBackoff\<rparr>]\<rparr>"
    using sys_step_Step[OF assms(1)] st by simp
  have ia: "i < length (workers ?sa)" and wa: "workers ?sa ! i = ?wk\<lparr>w_pc := AtBackoff\<rparr>"
    using assms(1) by (simp_all add: sa)
  have i1: "i < length (workers s1)" and w1: "workers s1 ! i = ?wk\<lparr>w_pc := AtBackoff\<rparr>"
    using run_others[OF ia assms(4)] wa assms(5) by simp_all
  obtain r p' where b: "w_backoff_fn ?wk (outside (shared s1)) = (r, p')"
    by (cases "w_backoff_fn ?wk (outside (shared s1))")
  let ?pc = "case r of Inl e \<Rightarrow> Raised e | Inr u \<Rightarrow> AtRead"
  have stb: "worker_step (workers s1 ! i) (shared s1)
               = (?wk\<lparr>w_pc := ?pc\<rparr>, (shared s1)\<lparr>outside := p'\<rparr>)"
    using b by (cases r) (simp_all add: w1 worker_step_def)
  let ?sb = "sys_step s1 (Step i)"
  have ib: "i < length (workers ?sb)" and wb: "workers ?sb ! i = ?wk\<lparr>w_pc := ?pc\<rparr>"
    using sys_step_Step[OF i1] stb i1 by simp_all
  have i2: "i < length (workers s2)" and w2: "workers s2 ! i = ?wk\<lparr>w_pc := ?pc\<rparr>"
    using run_others[OF ib assms(6)] wb assms(7) by simp_all
  have pc2: "w_pc (workers s2 ! i) =
           (case fst (w_backoff_fn ?wk (outside (shared s1))) of
              Inl e \<Rightarrow> Raised e
            | Inr u \<Rightarrow> AtRead)"
    by (simp add: w2 b)
  have rd: "w_pc (workers s2 ! i) = AtRead \<longrightarrow>
            w_pc (workers (sys_step s2 (Step i)) ! i) =
              (case getCurrentSequencer (w_lock ?wk) (table (shared s2)) of
                 Inl e \<Rightarrow> if e = ItemLockedException then AtBackoff else Raised e
               | Inr current \<Rightarrow>
                   if current < Some (object_sequencer (w_event ?wk))
                   then AtLock current
                   else Returned (OUTCOME_OUT_OF_DATE, None))
            \<and> table (shared (sys_step s2 (Step i))) = table (shared s2)"
  proof
    assume "w_pc (workers s2 ! i) = AtRead"
    then have w2': "workers s2 ! i = ?wk\<lparr>w_pc := AtRead\<rparr>" by (simp add: w2)
    have last_pc: "w_pc (fst (worker_step (workers s2 ! i) (shared s2))) =
           (case getCurrentSequencer (w_lock ?wk) (table (shared s2)) of
              Inl e \<Rightarrow> if e = ItemLockedException then AtBackoff else Raised e
            | Inr current \<Rightarrow>
                if current < Some (object_sequencer (w_event ?wk))
                then AtLock current
                else Returned (OUTCOME_OUT_OF_DATE, None))"
      by (simp add: w2' worker_step_def newer_iff split: sum.splits)
    have last_t: "table (snd (worker_step (workers s2 ! i) (shared s2))) = table (shared s2)"
      by (simp add: w2' worker_step_def newer_iff split: sum.splits)
    show "w_pc (workers (sys_step s2 (Step i)) ! i) =
              (case getCurrentSequencer (w_lock ?wk) (table (shared s2)) of
                 Inl e \<Rightarrow> if e = ItemLockedException then AtBackoff else Raised e
               | Inr current \<Rightarrow>
                   if current < Some (object_sequencer (w_event ?wk))
                   then AtLock current
                   else Returned (OUTCOME_OUT_OF_DATE, None))
            \<and> table (shared (sys_step s2 (Step i))) = table (shared s2)"
      using last_pc last_t i2 by (simp add: sys_step_Step[OF i2])
  qed
  have link: "\<forall>w'. handle_notification_if_up_to_date (w_event ?wk) (w_ctx ?wk) (w_lock ?wk)
                 (w_processing_fn ?wk) (w_backoff_fn ?wk) w'
               = run_worker (?wk\<lparr>w_pc := AtRead\<rparr>) w'"
  proof -
    have "new_worker (w_event ?wk) (w_ctx ?wk) (w_lock ?wk) (w_processing_fn ?wk)
            (w_backoff_fn ?wk) = ?wk\<lparr>w_pc := AtRead\<rparr>"
      by (cases ?wk) (simp add: new_worker_def)
    then show ?thesis by (simp add: handle_is_a_worker_alone)
  qed
  have fn: "getCurrentSequencer (w_lock ?wk) (table w) = Inr old' \<and>
          old' < Some (object_sequencer (w_event ?wk)) \<and>
          \<not> fst (lockForSequencer (w_lock ?wk) old' (object_sequencer (w_event ?wk)) (table w)) \<longrightarrow>
          handle_notification_if_up_to_date (w_event ?wk) (w_ctx ?wk) (w_lock ?wk)
              (w_processing_fn ?wk) (w_backoff_fn ?wk) w
            = (case w_backoff_fn ?wk (outside w) of
                 (Inl e', p') \<Rightarrow> Some (Inl e', w\<lparr>outside := p'\<rparr>)
               | (Inr u, p') \<Rightarrow>
                   handle_notification_if_up_to_date (w_event ?wk) (w_ctx ?wk) (w_lock ?wk)
                     (w_processing_fn ?wk) (w_backoff_fn ?wk) (w\<lparr>outside := p'\<rparr>))"
  proof (intro impI, elim conjE)
    assume "getCurrentSequencer (w_lock ?wk) (table w) = Inr old'"
      and "old' < Some (object_sequencer (w_event ?wk))"
      and "\<not> fst (lockForSequencer (w_lock ?wk) old' (object_sequencer (w_event ?wk)) (table w))"
    then show "handle_notification_if_up_to_date (w_event ?wk) (w_ctx ?wk) (w_lock ?wk)
              (w_processing_fn ?wk) (w_backoff_fn ?wk) w
            = (case w_backoff_fn ?wk (outside w) of
                 (Inl e', p') \<Rightarrow> Some (Inl e', w\<lparr>outside := p'\<rparr>)
               | (Inr u, p') \<Rightarrow>
                   handle_notification_if_up_to_date (w_event ?wk) (w_ctx ?wk) (w_lock ?wk)
                     (w_processing_fn ?wk) (w_backoff_fn ?wk) (w\<lparr>outside := p'\<rparr>))"
      by (rule handle_failed_lock)
  qed
  have sys: "shared (sys_step s (Step i)) = shared s" "w_pc (workers s1 ! i) = AtBackoff"
    using sa w1 by simp_all
  from sys pc2 rd link fn show ?thesis by (intro conjI)
qed

lemma racing_workers_eq:
  "racing_workers =
     \<lparr>shared = \<lparr>table = table_with (item_with (S ''20'') ''locked'' ''req-B''), outside = 0\<rparr>,
      workers =
        [(new_worker (event_with ''10'') () (lock_of ''req-A'') returns_hello (patient_backoff 2))
           \<lparr>w_pc := AtLock None\<rparr>,
         (new_worker (event_with ''20'') () (lock_of ''req-B'') returns_hello default_backoff)
           \<lparr>w_pc := AtProcess None\<rparr>]\<rparr>"
  by (simp add: racing_workers_def initial_def sys_step_def worker_step_def new_worker_def
        getCurrentSequencer_def get_item_def lockForSequencer_eq fixture_defs)

theorem failed_lock_is_followed_by_backoff_and_read_witness:
  "w_pc (workers (run [Step 0, Step 1, Step 1, Step 0, Step 0] racing_workers) ! 0)
     = Returned (OUTCOME_OUT_OF_DATE, None)
   \<and> w_pc (workers (run [Step 0, Step 1, Step 1, Step 0, Step 0] racing_workers) ! 1)
     = Returned (OUTCOME_PROCESSED, Some ''hello'')
   \<and> shared (run [Step 0, Step 1, Step 1, Step 0, Step 0] racing_workers)
     = \<lparr>table = table_with (item_with (S ''20'') '''' ''req-B''), outside = 2\<rparr>
   \<and> handle_notification_if_up_to_date (event_with ''10'') () (lock_of ''req-A'') returns_hello
       (patient_backoff 2)
       \<lparr>table = table_with (item_with_null_status (S ''05'') ''req-0''), outside = 0\<rparr>
     = Some (Inl (OtherException ''Timeout''),
             \<lparr>table = table_with (item_with_null_status (S ''05'') ''req-0''), outside = 2\<rparr>)"
proof -
  let ?t = "table_with (item_with_null_status (S ''05'') ''req-0'')"
  let ?s1 = "run [Step 1, Step 1] (sys_step racing_workers (Step 0))"
  let ?s2 = "run [] (sys_step ?s1 (Step 0))"
  have h1: "0 < length (workers racing_workers)"
    and h2: "w_pc (workers racing_workers ! 0) = AtLock None"
    and h3: "\<not> fst (lockForSequencer (w_lock (workers racing_workers ! 0)) None
                 (object_sequencer (w_event (workers racing_workers ! 0)))
                 (table (shared racing_workers)))"
    by (simp_all add: racing_workers_eq new_worker_def lockForSequencer_eq fixture_defs)
  have h4: "Step 0 \<notin> set [Step 1, Step 1 :: (unit, nat, string) sched]"
    and h6: "Step 0 \<notin> set ([] :: (unit, nat, string) sched list)" by simp_all
  note T = failed_lock_is_followed_by_backoff_and_read
             [of 0 racing_workers None "[Step 1, Step 1]" ?s1 "[]" ?s2, OF h1 h2 h3 h4 refl h6 refl]
  have race: "w_pc (workers (run [Step 0, Step 1, Step 1, Step 0, Step 0] racing_workers) ! 0)
       = Returned (OUTCOME_OUT_OF_DATE, None)
     \<and> w_pc (workers (run [Step 0, Step 1, Step 1, Step 0, Step 0] racing_workers) ! 1)
       = Returned (OUTCOME_PROCESSED, Some ''hello'')
     \<and> shared (run [Step 0, Step 1, Step 1, Step 0, Step 0] racing_workers)
       = \<lparr>table = table_with (item_with (S ''20'') '''' ''req-B''), outside = 2\<rparr>"
    using T[THEN conjunct2, THEN conjunct2, THEN conjunct2, THEN conjunct1]
    by (simp add: racing_workers_eq sys_step_def worker_step_def new_worker_def
          getCurrentSequencer_def get_item_def lockForSequencer_eq unlock_def update_item_def
          patient_backoff_def fixture_defs)
  have round: "\<And>n. handle_notification_if_up_to_date (event_with ''10'') ()
          (lock_of ''req-A'') returns_hello (patient_backoff 2) \<lparr>table = ?t, outside = n\<rparr>
       = (if n < 2 then
            handle_notification_if_up_to_date (event_with ''10'') ()
              (lock_of ''req-A'') returns_hello (patient_backoff 2)
              \<lparr>table = ?t, outside = Suc n\<rparr>
          else Some (Inl (OtherException ''Timeout''), \<lparr>table = ?t, outside = n\<rparr>))"
  proof -
    fix n :: nat
    show "handle_notification_if_up_to_date (event_with ''10'') ()
          (lock_of ''req-A'') returns_hello (patient_backoff 2) \<lparr>table = ?t, outside = n\<rparr>
       = (if n < 2 then
            handle_notification_if_up_to_date (event_with ''10'') ()
              (lock_of ''req-A'') returns_hello (patient_backoff 2)
              \<lparr>table = ?t, outside = Suc n\<rparr>
          else Some (Inl (OtherException ''Timeout''), \<lparr>table = ?t, outside = n\<rparr>))"
      using failed_lock_is_followed_by_backoff_and_read
              [of 0 racing_workers None "[Step 1, Step 1]" ?s1 "[]" ?s2
                  "\<lparr>table = ?t, outside = n\<rparr>" "Some ''05''",
               OF h1 h2 h3 h4 refl h6 refl,
               THEN conjunct2, THEN conjunct2, THEN conjunct2, THEN conjunct2, THEN conjunct2]
      by (simp add: racing_workers_eq new_worker_def getCurrentSequencer_def get_item_def
            lockForSequencer_eq item_with_null_status_def patient_backoff_def fixture_defs)
  qed
  have "handle_notification_if_up_to_date (event_with ''10'') ()
          (lock_of ''req-A'') returns_hello (patient_backoff 2) \<lparr>table = ?t, outside = 0\<rparr>
       = Some (Inl (OtherException ''Timeout''), \<lparr>table = ?t, outside = Suc (Suc 0)\<rparr>)"
    using round[of 0] round[of "Suc 0"] round[of "Suc (Suc 0)"] by simp
  then have fn: "handle_notification_if_up_to_date (event_with ''10'') ()
          (lock_of ''req-A'') returns_hello (patient_backoff 2) \<lparr>table = ?t, outside = 0\<rparr>
       = Some (Inl (OtherException ''Timeout''), \<lparr>table = ?t, outside = 2\<rparr>)"
    by (simp add: numeral_2_eq_2)
  show ?thesis using race fn by simp
qed




end
